theory Spec2Isabelle
  imports Main
begin

section \<open>The lock records and the collection that stores them\<close>

text \<open>
  A stored \<open>Date\<close> is its number of milliseconds since the epoch, an integer. The schema
  \<open>ResourceLockSchema\<close> has four fields; \<open>expires_at\<close> is a \<open>Date\<close> or \<open>null\<close>.
\<close>

type_synonym time = int

record lock =
  resource_name :: string
  process_id_str :: string
  locked_at :: time
  expires_at :: "time option"

text \<open>
  The collection is the list of its documents, in insertion order (the order in which
  \<open>find()\<close> returns them). The four calls the handlers make on the model
  \<open>ResourceLock\<close>:
  \<^item> \<open>findOne({ resource_name })\<close>: the first document of that name, or \<open>null\<close>;
  \<^item> \<open>deleteOne({ resource_name })\<close>: removes the first document of that name, if any;
  \<^item> \<open>save()\<close> of a new document: the schema declares \<open>resource_name\<close> as
    \<open>unique: true\<close>, so the insert is refused with the duplicate key error (code 11000)
    when a document of that name is stored, whatever its expiry;
  \<^item> \<open>find()\<close> and \<open>find({ process_id_str })\<close>: all documents, or those of one process.
\<close>

definition db_findOne :: "string \<Rightarrow> lock list \<Rightarrow> lock option" where
  "db_findOne n s = find (\<lambda>d. resource_name d = n) s"

fun db_deleteOne :: "string \<Rightarrow> lock list \<Rightarrow> lock list" where
  "db_deleteOne n [] = []"
| "db_deleteOne n (d # ds) = (if resource_name d = n then ds else d # db_deleteOne n ds)"

definition db_find :: "string option \<Rightarrow> lock list \<Rightarrow> lock list" where
  "db_find q s = (case q of None \<Rightarrow> s | Some p \<Rightarrow> filter (\<lambda>d. process_id_str d = p) s)"

datatype error =
    DuplicateKey    \<comment> \<open>\<open>error.code === 11000\<close>\<close>
  | ValidationError \<comment> \<open>\<open>save()\<close> refuses the document: a field cannot be cast\<close>
  | StoreFault      \<comment> \<open>any other error the driver throws\<close>

definition db_save :: "lock \<Rightarrow> lock list \<Rightarrow> error + lock list" where
  "db_save d s =
     (if resource_name d \<in> set (map resource_name s) then Inl DuplicateKey else Inr (s @ [d]))"

text \<open>
  Every call on the store is awaited and may throw. The flag says whether this call fails
  with a driver error; a failed call leaves the collection as it was.
\<close>

definition call_findOne :: "bool \<Rightarrow> string \<Rightarrow> lock list \<Rightarrow> (error + lock option) \<times> lock list" where
  "call_findOne fault n s = (if fault then (Inl StoreFault, s) else (Inr (db_findOne n s), s))"

definition call_deleteOne :: "bool \<Rightarrow> string \<Rightarrow> lock list \<Rightarrow> (error + unit) \<times> lock list" where
  "call_deleteOne fault n s = (if fault then (Inl StoreFault, s) else (Inr (), db_deleteOne n s))"

definition call_find :: "bool \<Rightarrow> string option \<Rightarrow> lock list \<Rightarrow> (error + lock list) \<times> lock list" where
  "call_find fault q s = (if fault then (Inl StoreFault, s) else (Inr (db_find q s), s))"

definition call_save :: "bool \<Rightarrow> lock \<Rightarrow> lock list \<Rightarrow> (error + unit) \<times> lock list" where
  "call_save fault d s =
     (if fault then (Inl StoreFault, s)
      else case db_save d s of Inl e \<Rightarrow> (Inl e, s) | Inr s' \<Rightarrow> (Inr (), s'))"

section \<open>Responses and handlers\<close>

text \<open>
  One constructor for each response a handler sends (HTTP status and body), and
  \<open>Unhandled\<close> for an exception that leaves the handler: the one thrown inside the
  \<open>catch\<close> block of \<open>/locks/request\<close>, where no response is sent by the handler.
\<close>

datatype response =
    Bad_request                           \<comment> \<open>400, the two names are required\<close>
  | Acquired string string                \<comment> \<open>200 \<open>acquired\<close>: resource, process\<close>
  | Denied string string                  \<comment> \<open>409 \<open>denied\<close>: resource, \<open>locked_by\<close>\<close>
  | Resource_not_locked string            \<comment> \<open>404 \<open>resource_not_locked\<close>\<close>
  | Not_locked_by_process string          \<comment> \<open>403 \<open>not_locked_by_process\<close>\<close>
  | Released string                       \<comment> \<open>200 \<open>released\<close>\<close>
  | Is_unlocked string                    \<comment> \<open>200, \<open>is_locked: false\<close>\<close>
  | Is_locked string string time          \<comment> \<open>200, \<open>is_locked: true\<close>, \<open>locked_by\<close>, \<open>locked_at\<close>\<close>
  | All_locks "(string \<times> string \<times> time) list" \<comment> \<open>200, rows of \<open>/locks/all-locked\<close>\<close>
  | Process_locks "(string \<times> time) list"  \<comment> \<open>200, rows of \<open>/locks/process/:process_id_str\<close>\<close>
  | Internal_server_error                 \<comment> \<open>500\<close>
  | Unhandled

text \<open>
  A handler is an \<open>async\<close> function: it runs until its next \<open>await\<close> of a store call,
  and goes on with the call's result (or its exception). A task is what is left to run:
  a response, a read of the clock (\<open>new Date()\<close>), or a store call with its continuation.
\<close>

datatype task =
    Respond response
  | Clock "time \<Rightarrow> task"
  | FindOne string "error + lock option \<Rightarrow> task"
  | DeleteOne string "error + unit \<Rightarrow> task"
  | Save lock "error + unit \<Rightarrow> task"
  | Find "string option" "error + lock list \<Rightarrow> task"

text \<open>\<open>lock.expires_at && lock.expires_at < currentTime\<close>: a \<open>Date\<close> object is truthy.\<close>

definition expired :: "lock \<Rightarrow> time \<Rightarrow> bool" where
  "expired lock currentTime =
     (case expires_at lock of None \<Rightarrow> False | Some e \<Rightarrow> e < currentTime)"

subsection \<open>POST /locks/request\<close>

text \<open>
  The \<open>catch\<close> block: on the duplicate key error the record is read again and its
  holder reported; \<open>existingLock.process_id_str\<close> throws when that read finds nothing, and
  the read itself may throw: both leave the handler. Any other error is answered 500.
\<close>

definition request_catch :: "error \<Rightarrow> string \<Rightarrow> task" where
  "request_catch e resource_name' =
     (if e = DuplicateKey then
        FindOne resource_name' (\<lambda>r. case r of
            Inl _ \<Rightarrow> Respond Unhandled
          | Inr None \<Rightarrow> Respond Unhandled
          | Inr (Some existingLock) \<Rightarrow>
              Respond (Denied resource_name' (process_id_str existingLock)))
      else Respond Internal_server_error)"

text \<open>
  \<open>new Date(v)\<close> is a date only within 8.64e15 milliseconds of the epoch; beyond, it is
  the Invalid Date.
\<close>

datatype date = Date time | Invalid_Date

definition new_Date :: "int \<Rightarrow> date" where
  "new_Date v = (if \<bar>v\<bar> \<le> 8640000000000000 then Date v else Invalid_Date)"

text \<open>
  Creating the lock. \<open>ttl_seconds ? new Date(locked_at.getTime() + ttl_seconds * 1000) : null\<close>:
  a missing \<open>ttl_seconds\<close> and the number 0 are both falsy.
\<close>

definition new_expires_at :: "time \<Rightarrow> int option \<Rightarrow> date option" where
  "new_expires_at locked_at' ttl_seconds =
     (case ttl_seconds of
        None \<Rightarrow> None
      | Some ttl \<Rightarrow> if ttl = 0 then None else Some (new_Date (locked_at' + ttl * 1000)))"

text \<open>
  \<open>newLock.save()\<close> validates the document before it inserts it: the schema casts
  \<open>expires_at\<close> to a \<open>Date\<close>, \<open>null\<close> and a date pass, and the Invalid Date is refused with
  a validation error, which the \<open>catch\<close> block answers like any error other than the
  duplicate key. No insert is tried then.
\<close>

definition cast_expires_at :: "date option \<Rightarrow> error + time option" where
  "cast_expires_at v =
     (case v of
        None \<Rightarrow> Inr None
      | Some (Date e) \<Rightarrow> Inr (Some e)
      | Some Invalid_Date \<Rightarrow> Inl ValidationError)"

definition request_create :: "string \<Rightarrow> string \<Rightarrow> int option \<Rightarrow> task" where
  "request_create resource_name' process_id_str' ttl_seconds =
     Clock (\<lambda>locked_at'.
       case cast_expires_at (new_expires_at locked_at' ttl_seconds) of
         Inl e \<Rightarrow> request_catch e resource_name'
       | Inr expires_at' \<Rightarrow>
           Save \<lparr>resource_name = resource_name', process_id_str = process_id_str',
                 locked_at = locked_at', expires_at = expires_at'\<rparr>
             (\<lambda>r. case r of
                Inl e \<Rightarrow> request_catch e resource_name'
              | Inr _ \<Rightarrow> Respond (Acquired resource_name' process_id_str')))"

definition request_try :: "string \<Rightarrow> string \<Rightarrow> int option \<Rightarrow> task" where
  "request_try resource_name' process_id_str' ttl_seconds =
     FindOne resource_name' (\<lambda>r. case r of
         Inl e \<Rightarrow> request_catch e resource_name'
       | Inr None \<Rightarrow> request_create resource_name' process_id_str' ttl_seconds
       | Inr (Some existingLock) \<Rightarrow>
           Clock (\<lambda>currentTime.
             if expired existingLock currentTime then
               DeleteOne resource_name' (\<lambda>r. case r of
                   Inl e \<Rightarrow> request_catch e resource_name'
                 | Inr _ \<Rightarrow> request_create resource_name' process_id_str' ttl_seconds)
             else Respond (Denied resource_name' (process_id_str existingLock))))"

text \<open>
  The fields of the body are strings when present; \<open>!x\<close> holds of a missing field and
  of the empty string. \<open>ttl_seconds\<close> is a whole number of seconds when present. Past the
  validation both names are present (the last case of the \<open>case\<close> is never taken).
\<close>

definition falsy :: "string option \<Rightarrow> bool" where
  "falsy x = (case x of None \<Rightarrow> True | Some v \<Rightarrow> v = [])"

definition locks_request :: "string option \<Rightarrow> string option \<Rightarrow> int option \<Rightarrow> task" where
  "locks_request resource_name' process_id_str' ttl_seconds =
     (if falsy resource_name' \<or> falsy process_id_str' then Respond Bad_request
      else case (resource_name', process_id_str') of
          (Some n, Some p) \<Rightarrow> request_try n p ttl_seconds
        | _ \<Rightarrow> Respond Bad_request)"

subsection \<open>POST /locks/release\<close>

definition release_try :: "string \<Rightarrow> string \<Rightarrow> task" where
  "release_try resource_name' process_id_str' =
     FindOne resource_name' (\<lambda>r. case r of
         Inl e \<Rightarrow> Respond Internal_server_error
       | Inr None \<Rightarrow> Respond (Resource_not_locked resource_name')
       | Inr (Some existingLock) \<Rightarrow>
           if process_id_str existingLock \<noteq> process_id_str' then
             Respond (Not_locked_by_process resource_name')
           else
             DeleteOne resource_name' (\<lambda>r. case r of
                 Inl e \<Rightarrow> Respond Internal_server_error
               | Inr _ \<Rightarrow> Respond (Released resource_name')))"

definition locks_release :: "string option \<Rightarrow> string option \<Rightarrow> task" where
  "locks_release resource_name' process_id_str' =
     (if falsy resource_name' \<or> falsy process_id_str' then Respond Bad_request
      else case (resource_name', process_id_str') of
          (Some n, Some p) \<Rightarrow> release_try n p
        | _ \<Rightarrow> Respond Bad_request)"

subsection \<open>GET /locks/status/:resource_name\<close>

definition locks_status :: "string \<Rightarrow> task" where
  "locks_status resource_name' =
     FindOne resource_name' (\<lambda>r. case r of
         Inl e \<Rightarrow> Respond Internal_server_error
       | Inr None \<Rightarrow> Respond (Is_unlocked resource_name')
       | Inr (Some lock) \<Rightarrow>
           Clock (\<lambda>currentTime.
             if expired lock currentTime then
               DeleteOne resource_name' (\<lambda>r. case r of
                   Inl e \<Rightarrow> Respond Internal_server_error
                 | Inr _ \<Rightarrow> Respond (Is_unlocked resource_name'))
             else Respond (Is_locked resource_name' (process_id_str lock) (locked_at lock))))"

subsection \<open>GET /locks/all-locked and GET /locks/process/:process_id_str\<close>

text \<open>
  Both handlers run the same loop over the documents they read: an expired one is
  deleted by its name, any other is pushed on \<open>validLocks\<close> as a row. They differ in the
  row they push and in the query; \<open>row\<close> and \<open>reply\<close> are these differences.
\<close>

fun valid_locks :: "(lock \<Rightarrow> 'r) \<Rightarrow> ('r list \<Rightarrow> response) \<Rightarrow> time \<Rightarrow> lock list \<Rightarrow> 'r list \<Rightarrow> task" where
  "valid_locks row reply currentTime [] validLocks = Respond (reply validLocks)"
| "valid_locks row reply currentTime (lock # locks) validLocks =
     (if expired lock currentTime then
        DeleteOne (resource_name lock) (\<lambda>r. case r of
            Inl e \<Rightarrow> Respond Internal_server_error
          | Inr _ \<Rightarrow> valid_locks row reply currentTime locks validLocks)
      else valid_locks row reply currentTime locks (validLocks @ [row lock]))"

definition all_row :: "lock \<Rightarrow> string \<times> string \<times> time" where
  "all_row lock = (resource_name lock, process_id_str lock, locked_at lock)"

definition process_row :: "lock \<Rightarrow> string \<times> time" where
  "process_row lock = (resource_name lock, locked_at lock)"

definition locks_all_locked :: task where
  "locks_all_locked =
     Clock (\<lambda>currentTime.
       Find None (\<lambda>r. case r of
           Inl e \<Rightarrow> Respond Internal_server_error
         | Inr locks \<Rightarrow> valid_locks all_row All_locks currentTime locks []))"

definition locks_process :: "string \<Rightarrow> task" where
  "locks_process process_id_str' =
     Clock (\<lambda>currentTime.
       Find (Some process_id_str') (\<lambda>r. case r of
           Inl e \<Rightarrow> Respond Internal_server_error
         | Inr locks \<Rightarrow> valid_locks process_row Process_locks currentTime locks []))"

section \<open>Running requests\<close>

text \<open>
  One request served alone, to its response: \<open>now\<close> is the time of the clock while it
  runs, and \<open>faults\<close> says, call by call, which of its store calls fail (none once the
  list is used up). The result is the response and the collection left behind.
\<close>

definition faulty :: "bool list \<Rightarrow> bool" where
  "faulty faults = (case faults of [] \<Rightarrow> False | f # _ \<Rightarrow> f)"

primrec run :: "task \<Rightarrow> bool list \<Rightarrow> time \<Rightarrow> lock list \<Rightarrow> response \<times> lock list" where
  "run (Respond r) faults now s = (r, s)"
| "run (Clock k) faults now s = run (k now) faults now s"
| "run (FindOne n k) faults now s =
     run (k (fst (call_findOne (faulty faults) n s))) (tl faults) now
       (snd (call_findOne (faulty faults) n s))"
| "run (DeleteOne n k) faults now s =
     run (k (fst (call_deleteOne (faulty faults) n s))) (tl faults) now
       (snd (call_deleteOne (faulty faults) n s))"
| "run (Save d k) faults now s =
     run (k (fst (call_save (faulty faults) d s))) (tl faults) now
       (snd (call_save (faulty faults) d s))"
| "run (Find q k) faults now s =
     run (k (fst (call_find (faulty faults) q s))) (tl faults) now
       (snd (call_find (faulty faults) q s))"

text \<open>
  Requests served together. Each store call is atomic in the database, and a handler
  gives way to the others only at an \<open>await\<close>; so a run of the server is a sequence of
  events, each letting one request take its next step: \<open>(i, now, fault)\<close> lets request
  \<open>i\<close> of the pool read the clock, which shows \<open>now\<close>, or make its pending store call,
  which fails when \<open>fault\<close> holds. A request that has responded stays as it is.
\<close>

fun act :: "bool \<Rightarrow> time \<Rightarrow> task \<Rightarrow> lock list \<Rightarrow> task \<times> lock list" where
  "act fault now (Respond r) s = (Respond r, s)"
| "act fault now (Clock k) s = (k now, s)"
| "act fault now (FindOne n k) s = (k (fst (call_findOne fault n s)), snd (call_findOne fault n s))"
| "act fault now (DeleteOne n k) s = (k (fst (call_deleteOne fault n s)), snd (call_deleteOne fault n s))"
| "act fault now (Save d k) s = (k (fst (call_save fault d s)), snd (call_save fault d s))"
| "act fault now (Find q k) s = (k (fst (call_find fault q s)), snd (call_find fault q s))"

type_synonym event = "nat \<times> time \<times> bool"

fun fire :: "event \<Rightarrow> task list \<times> lock list \<Rightarrow> task list \<times> lock list" where
  "fire (i, now, fault) (pool, s) =
     (if i < length pool
      then (pool[i := fst (act fault now (pool ! i) s)], snd (act fault now (pool ! i) s))
      else (pool, s))"

definition interleave :: "event list \<Rightarrow> task list \<Rightarrow> lock list \<Rightarrow> task list \<times> lock list" where
  "interleave events pool s = fold fire events (pool, s)"

text \<open>
  Requests served one after the other, each alone: the collection the last one leaves.
\<close>

datatype call =
    Request "string option" "string option" "int option"
  | Release "string option" "string option"
  | Status string
  | All_locked
  | Process string

fun handler :: "call \<Rightarrow> task" where
  "handler (Request n p ttl) = locks_request n p ttl"
| "handler (Release n p) = locks_release n p"
| "handler (Status n) = locks_status n"
| "handler All_locked = locks_all_locked"
| "handler (Process p) = locks_process p"

fun serve :: "(call \<times> bool list \<times> time) list \<Rightarrow> lock list \<Rightarrow> lock list" where
  "serve [] s = s"
| "serve ((c, faults, now) # cs) s = serve cs (snd (run (handler c) faults now s))"

section \<open>Reading responses; the liveness rule as the specification words it\<close>

text \<open>The resource names of the rows of a listing.\<close>

fun listed :: "response \<Rightarrow> string list" where
  "listed (All_locks rows) = map fst rows"
| "listed (Process_locks rows) = map fst rows"
| "listed _ = []"

text \<open>
  The specification's rule, in its words: a stored lease is live iff \<open>expires_at\<close> is
  absent or \<open>expires_at > now\<close>. The handlers test \<^const>\<open>expired\<close> instead.
\<close>

definition live_spec :: "lock \<Rightarrow> time \<Rightarrow> bool" where
  "live_spec lease now = (case expires_at lease of None \<Rightarrow> True | Some e \<Rightarrow> e > now)"

text \<open>A lease on \<open>r\<close> held by \<open>x\<close>, taken at time 0 for one second.\<close>

definition lease_r :: lock where
  "lease_r = \<lparr>resource_name = ''r'', process_id_str = ''x'', locked_at = 0, expires_at = Some 1000\<rparr>"

text \<open>The response of a request of the pool, once it has one.\<close>

fun answer :: "task \<Rightarrow> response option" where
  "answer (Respond r) = Some r"
| "answer _ = None"

subsection \<open>Three requests on \<open>r\<close> served together, over an expired lease\<close>

text \<open>
  The store holds \<^const>\<open>lease_r\<close>, expired since time 1000. Request 0 asks the status of
  \<open>r\<close>; requests 1 and 2 ask for \<open>r\<close> on behalf of \<open>b\<close> and of \<open>c\<close>, without a \<open>ttl\<close>.
  First, at time 2000: request 0 reads the record and the clock (its next step is the delete
  of the expired record), then request 1 runs to its response. Then request 0 makes its
  delete, and request 2, which starts only now, runs to its response at time 3000.
\<close>

definition lease_b :: lock where
  "lease_b = \<lparr>resource_name = ''r'', process_id_str = ''b'', locked_at = 2000, expires_at = None\<rparr>"

definition lease_c :: lock where
  "lease_c = \<lparr>resource_name = ''r'', process_id_str = ''c'', locked_at = 3000, expires_at = None\<rparr>"

definition reclaim_pool :: "task list" where
  "reclaim_pool =
     [locks_status ''r'',
      locks_request (Some ''r'') (Some ''b'') None,
      locks_request (Some ''r'') (Some ''c'') None]"

definition reclaim_first :: "event list" where
  "reclaim_first =
     [(0, 2000, False), (0, 2000, False),
      (1, 2000, False), (1, 2000, False), (1, 2000, False), (1, 2000, False), (1, 2000, False)]"

definition reclaim_then :: "event list" where
  "reclaim_then = [(0, 2000, False), (2, 3000, False), (2, 3000, False), (2, 3000, False)]"

subsection \<open>Two requests on \<open>r\<close> and a release served together, over an empty store\<close>

text \<open>
  Request 0 asks for \<open>r\<close> on behalf of \<open>a\<close>, request 1 on behalf of \<open>b\<close>, and request 2 is
  the release of \<open>r\<close> by \<open>b\<close>. First, at time 5: request 0 finds no record and reads the
  clock (its next step is the insert), then request 1 runs to its response. Then request 0
  makes its insert, request 2 runs to its response, and request 0 makes its last step.
\<close>

definition lease_b5 :: lock where
  "lease_b5 = \<lparr>resource_name = ''r'', process_id_str = ''b'', locked_at = 5, expires_at = None\<rparr>"

definition reread_pool :: "task list" where
  "reread_pool =
     [locks_request (Some ''r'') (Some ''a'') None,
      locks_request (Some ''r'') (Some ''b'') None,
      locks_release (Some ''r'') (Some ''b'')]"

definition reread_first :: "event list" where
  "reread_first = [(0, 5, False), (0, 5, False), (1, 5, False), (1, 5, False), (1, 5, False)]"

definition reread_then :: "event list" where
  "reread_then = [(0, 5, False), (2, 6, False), (2, 6, False), (0, 6, False)]"

subsection \<open>Requests served one after the other, after a lease without \<open>ttl\<close>\<close>

definition lease_a :: lock where
  "lease_a = \<lparr>resource_name = ''r'', process_id_str = ''a'', locked_at = 0, expires_at = None\<rparr>"

definition later_calls :: "(call \<times> bool list \<times> time) list" where
  "later_calls =
     [(Status ''r'', [], 1000000000000),
      (Request (Some ''r'') (Some ''b'') (Some 5), [], 2000000000000),
      (Release (Some ''r'') (Some ''b''), [], 3000000000000),
      (All_locked, [False, True], 4000000000000)]"

subsection \<open>A lease without \<open>ttl\<close> taken while an earlier status request is still running\<close>

text \<open>
  The store holds \<^const>\<open>lease_r\<close>, expired since time 1000. Request 0 asks the status of
  \<open>r\<close>, request 1 asks for \<open>r\<close> on behalf of \<open>a\<close> without a \<open>ttl\<close>, and request 2 asks the
  status of \<open>r\<close> again. First, at time 2000: request 0 reads the record and the clock (its
  next step is the delete of the expired record), then request 1 runs to its response.
  Then request 0 makes its delete, and long after, request 2 runs. No release is made.
\<close>

definition lease_a2 :: lock where
  "lease_a2 = \<lparr>resource_name = ''r'', process_id_str = ''a'', locked_at = 2000, expires_at = None\<rparr>"

definition forever_pool :: "task list" where
  "forever_pool =
     [locks_status ''r'',
      locks_request (Some ''r'') (Some ''a'') None,
      locks_status ''r'']"

definition forever_first :: "event list" where
  "forever_first =
     [(0, 2000, False), (0, 2000, False),
      (1, 2000, False), (1, 2000, False), (1, 2000, False), (1, 2000, False), (1, 2000, False)]"

definition forever_then :: "event list" where
  "forever_then = [(0, 2000, False), (2, 1000000000000000, False)]"

section \<open>The store calls\<close>

lemmas call_defs = call_findOne_def call_deleteOne_def call_save_def call_find_def db_save_def

lemmas handler_defs = locks_status_def locks_request_def locks_release_def request_try_def
  request_create_def request_catch_def release_try_def falsy_def new_expires_at_def
  new_Date_def cast_expires_at_def

lemma faulty_simps: "faulty [] = False" "faulty (f # fs) = f"
  by (simp_all add: faulty_def)

lemma db_findOne_filter:
  "db_findOne n s = (case filter (\<lambda>d. resource_name d = n) s of [] \<Rightarrow> None | d # _ \<Rightarrow> Some d)"
  unfolding db_findOne_def by (induction s) auto

lemma findOne_only:
  "filter (\<lambda>x. resource_name x = R) s = [d] \<Longrightarrow> db_findOne R s = Some d"
  by (simp add: db_findOne_filter)

lemma db_deleteOne_keeps:
  "\<not> P n \<Longrightarrow>
   filter (\<lambda>d. P (resource_name d)) (db_deleteOne n s) = filter (\<lambda>d. P (resource_name d)) s"
  by (induction s) auto

lemma db_deleteOne_subset: "set (db_deleteOne n s) \<subseteq> set s"
  by (induction s) auto



lemma listed_all: "set (listed (All_locks (map all_row ls))) = resource_name ` set ls"
  by (auto simp: all_row_def image_iff)


section \<open>What a request served alone answers, when no store call fails\<close>

lemma run_status:
  "run (locks_status R) [] now s =
     (case db_findOne R s of
        None \<Rightarrow> (Is_unlocked R, s)
      | Some l \<Rightarrow> if expired l now then (Is_unlocked R, db_deleteOne R s)
                  else (Is_locked R (process_id_str l) (locked_at l), s))"
  by (simp add: locks_status_def call_defs faulty_simps split: option.splits)

lemma run_catch:
  "run (request_catch DuplicateKey R) [] now s =
     (case db_findOne R s of None \<Rightarrow> (Unhandled, s) | Some l \<Rightarrow> (Denied R (process_id_str l), s))"
  by (simp add: request_catch_def call_defs faulty_simps split: option.splits)

lemma cast_new_expires_at:
  "cast_expires_at (new_expires_at now ttl) =
     (case ttl of
        None \<Rightarrow> Inr None
      | Some n \<Rightarrow> if n = 0 then Inr None
                  else if \<bar>now + n * 1000\<bar> \<le> 8640000000000000 then Inr (Some (now + n * 1000))
                  else Inl ValidationError)"
  by (simp add: cast_expires_at_def new_expires_at_def new_Date_def split: option.splits)

lemma run_create:
  "R \<notin> set (map resource_name s) \<Longrightarrow>
   run (request_create R p ttl) faults now s =
     (case cast_expires_at (new_expires_at now ttl) of
        Inl e \<Rightarrow> (Internal_server_error, s)
      | Inr ex \<Rightarrow>
          if faulty faults then (Internal_server_error, s)
          else (Acquired R p, s @ [\<lparr>resource_name = R, process_id_str = p, locked_at = now,
                  expires_at = ex\<rparr>]))"
  by (simp add: request_create_def request_catch_def call_defs cast_new_expires_at
      split: option.splits)

lemma run_request:
  "R \<noteq> [] \<Longrightarrow> p \<noteq> [] \<Longrightarrow>
   run (locks_request (Some R) (Some p) ttl) [] now s =
     (case db_findOne R s of
        None \<Rightarrow> run (request_create R p ttl) [] now s
      | Some l \<Rightarrow> if expired l now then run (request_create R p ttl) [] now (db_deleteOne R s)
                  else (Denied R (process_id_str l), s))"
  by (simp add: locks_request_def falsy_def request_try_def call_defs faulty_simps split: option.splits)

lemma run_release:
  "R \<noteq> [] \<Longrightarrow> p \<noteq> [] \<Longrightarrow>
   run (locks_release (Some R) (Some p)) [] now s =
     (case db_findOne R s of
        None \<Rightarrow> (Resource_not_locked R, s)
      | Some l \<Rightarrow> if process_id_str l \<noteq> p then (Not_locked_by_process R, s)
                  else (Released R, db_deleteOne R s))"
  by (simp add: locks_release_def falsy_def release_try_def call_defs faulty_simps split: option.splits)

lemma run_valid_locks:
  "fst (run (valid_locks row reply t locks acc) [] now s) =
     reply (acc @ map row (filter (\<lambda>l. \<not> expired l t) locks))"
  by (induction locks arbitrary: acc s) (simp_all add: call_defs faulty_simps)

lemma run_all_locked:
  "fst (run locks_all_locked [] now s) = All_locks (map all_row (filter (\<lambda>l. \<not> expired l now) s))"
  by (simp add: locks_all_locked_def call_defs faulty_simps db_find_def run_valid_locks)


text \<open>The collection after a request that answered \<open>acquired\<close>: the new record is the
  last one and the only one of its resource; the others were there before.\<close>

lemma acquired_store:
  assumes "run (locks_request (Some R) (Some A) ttl) faults t0 s = (Acquired R A, s1)"
  shows "\<exists>s' ex. cast_expires_at (new_expires_at t0 ttl) = Inr ex
            \<and> s1 = s' @ [\<lparr>resource_name = R, process_id_str = A, locked_at = t0,
                 expires_at = ex\<rparr>]
            \<and> R \<notin> set (map resource_name s') \<and> set s' \<subseteq> set s"
  using assms db_deleteOne_subset [of R s]
  by (auto simp: locks_request_def request_try_def request_create_def request_catch_def call_defs
      split: if_splits option.splits sum.splits)

section \<open>The records of other resources\<close>

lemma run_catch_store: "snd (run (request_catch e R) faults now s) = s"
  by (simp add: request_catch_def call_defs split: sum.splits option.splits)

lemma run_create_keeps:
  "\<not> P R \<Longrightarrow>
   filter (\<lambda>d. P (resource_name d)) (snd (run (request_create R p ttl) faults now s))
     = filter (\<lambda>d. P (resource_name d)) s"
  by (simp add: request_create_def call_defs run_catch_store split: sum.splits option.splits)

lemma run_try_keeps:
  "\<not> P R \<Longrightarrow>
   filter (\<lambda>d. P (resource_name d)) (snd (run (request_try R p ttl) faults now s))
     = filter (\<lambda>d. P (resource_name d)) s"
  by (simp add: request_try_def call_findOne_def call_deleteOne_def run_catch_store
      run_create_keeps db_deleteOne_keeps split: sum.splits option.splits)

lemma run_request_keeps:
  "\<not> P R \<Longrightarrow>
   filter (\<lambda>d. P (resource_name d)) (snd (run (locks_request (Some R) p ttl) faults now s))
     = filter (\<lambda>d. P (resource_name d)) s"
  by (simp add: locks_request_def run_try_keeps split: option.splits)

lemma run_release_keeps:
  "\<not> P R \<Longrightarrow>
   filter (\<lambda>d. P (resource_name d)) (snd (run (locks_release (Some R) p) faults now s))
     = filter (\<lambda>d. P (resource_name d)) s"
  by (simp add: locks_release_def release_try_def call_findOne_def call_deleteOne_def
      db_deleteOne_keeps split: option.splits sum.splits)

lemma run_status_keeps:
  "\<not> P R \<Longrightarrow>
   filter (\<lambda>d. P (resource_name d)) (snd (run (locks_status R) faults now s))
     = filter (\<lambda>d. P (resource_name d)) s"
  by (simp add: locks_status_def call_findOne_def call_deleteOne_def db_deleteOne_keeps
      split: option.splits sum.splits)

text \<open>
  C10. The requests on one resource \<open>R\<close> (\<open>/locks/request\<close>, \<open>/locks/release\<close> and
  \<open>/locks/status\<close>) leave every record of another resource as it was: the records whose
  name differs from \<open>R\<close> are the same, in the same order, before and after the request,
  whichever of its store calls fail.
\<close>

theorem single_resource_frame:
  "filter (\<lambda>d. resource_name d \<noteq> R) (snd (run (locks_request (Some R) p ttl) faults now s))
     = filter (\<lambda>d. resource_name d \<noteq> R) s
   \<and> filter (\<lambda>d. resource_name d \<noteq> R) (snd (run (locks_release (Some R) p) faults now s))
     = filter (\<lambda>d. resource_name d \<noteq> R) s
   \<and> filter (\<lambda>d. resource_name d \<noteq> R) (snd (run (locks_status R) faults now s))
     = filter (\<lambda>d. resource_name d \<noteq> R) s"
  using run_request_keeps [of "\<lambda>n. n \<noteq> R" R] run_release_keeps [of "\<lambda>n. n \<noteq> R" R]
    run_status_keeps [of "\<lambda>n. n \<noteq> R" R]
  by simp

section \<open>Liveness of a lease\<close>





text \<open>
  The loop of the listings deletes by name the expired records it has read; the records
  of the names it does not delete are kept.
\<close>

lemma run_valid_locks_keeps:
  "\<forall>l \<in> set locks. expired l t \<longrightarrow> \<not> P (resource_name l) \<Longrightarrow>
   filter (\<lambda>d. P (resource_name d)) (snd (run (valid_locks row reply t locks acc) faults now s))
     = filter (\<lambda>d. P (resource_name d)) s"
proof (induction locks arbitrary: acc faults s)
  case Nil
  then show ?case by simp
next
  case (Cons l ls)
  then show ?case by (simp add: call_deleteOne_def db_deleteOne_keeps)
qed

lemma unexpired_not_swept:
  assumes "filter (\<lambda>x. resource_name x = R) s = [d]" and "\<not> expired d now" and "set locks \<subseteq> set s"
  shows "\<forall>l \<in> set locks. expired l now \<longrightarrow> \<not> resource_name l = R"
proof (intro ballI impI notI)
  fix l assume l: "l \<in> set locks" "expired l now" "resource_name l = R"
  with assms(3) have "l \<in> set (filter (\<lambda>x. resource_name x = R) s)" by auto
  with assms(1) have "l = d" by simp
  with l(2) assms(2) show False by simp
qed

lemma run_lists_keep:
  assumes "filter (\<lambda>x. resource_name x = R) s = [d]" and "\<not> expired d now"
  shows "filter (\<lambda>x. resource_name x = R) (snd (run locks_all_locked faults now s)) = [d]"
    and "filter (\<lambda>x. resource_name x = R) (snd (run (locks_process p) faults now s)) = [d]"
proof -
  have a: "\<forall>l \<in> set s. expired l now \<longrightarrow> \<not> resource_name l = R"
    using unexpired_not_swept [OF assms, of s] by simp
  have b: "\<forall>l \<in> set (filter (\<lambda>d. process_id_str d = p) s). expired l now \<longrightarrow> \<not> resource_name l = R"
    using unexpired_not_swept [OF assms, of "filter (\<lambda>d. process_id_str d = p) s"] by simp
  have a': "filter (\<lambda>x. resource_name x = R)
      (snd (run (valid_locks all_row All_locks now s []) fs' now s)) = [d]" for fs'
    using run_valid_locks_keeps [OF a, of all_row All_locks "[]" fs' now s] assms(1) by simp
  have b': "filter (\<lambda>x. resource_name x = R)
      (snd (run (valid_locks process_row Process_locks now (filter (\<lambda>d. process_id_str d = p) s) [])
         fs' now s)) = [d]" for fs'
    using run_valid_locks_keeps [OF b, of process_row Process_locks "[]" fs' now s] assms(1) by simp
  show "filter (\<lambda>x. resource_name x = R) (snd (run locks_all_locked faults now s)) = [d]"
    using assms(1) by (simp add: locks_all_locked_def call_find_def db_find_def a')
  show "filter (\<lambda>x. resource_name x = R) (snd (run (locks_process p) faults now s)) = [d]"
    using assms(1) by (simp add: locks_process_def call_find_def db_find_def b')
qed





section \<open>The listing of all locks\<close>

text \<open>
  C3, as the specification states it: the listing never holds an expired lease, and after
  an acquisition with \<open>ttl = 0\<close> and any advance of the clock it does not contain the
  resource. In the handler a \<open>ttl_seconds\<close> of 0 is falsy, the lease gets no \<open>expires_at\<close>,
  and five seconds later it is listed. And a lease is listed at the instant of its
  \<open>expires_at\<close>, when the specification's rule has it expired.
\<close>

theorem ttl_zero_counterexample:
  "run (locks_request (Some ''r'') (Some ''a'') (Some 0)) [] 0 [] =
     (Acquired ''r'' ''a'',
      [\<lparr>resource_name = ''r'', process_id_str = ''a'', locked_at = 0, expires_at = None\<rparr>])
   \<and> fst (run locks_all_locked [] 5000
        [\<lparr>resource_name = ''r'', process_id_str = ''a'', locked_at = 0, expires_at = None\<rparr>]) =
     All_locks [(''r'', ''a'', 0)]
   \<and> \<not> live_spec lease_r 1000
   \<and> fst (run locks_all_locked [] 1000 [lease_r]) = All_locks [(''r'', ''x'', 0)]"
  by (simp add: run_request run_create run_all_locked db_findOne_def cast_new_expires_at faulty_simps
      expired_def all_row_def live_spec_def lease_r_def)

text \<open>
  C3, amended: the listing of all locks is exactly the rows of the stored leases that are
  not expired (\<open>expires_at\<close> absent or \<open>expires_at \<ge> now\<close>), in the order of the store, so
  it never holds a lease whose \<open>expires_at\<close> is before \<open>now\<close>. After an acquisition of \<open>R\<close>
  with a \<open>ttl\<close> other than 0, once the clock has passed \<open>locked_at + ttl * 1000\<close> the
  listing does not contain \<open>R\<close>, and it is empty if every other stored lease is expired.
\<close>

theorem all_locked_lists_unexpired:
  "fst (run locks_all_locked [] now s) = All_locks (map all_row (filter (\<lambda>l. \<not> expired l now) s))
   \<and> (ttl \<noteq> 0 \<and> run (locks_request (Some R) (Some A) (Some ttl)) [] t0 s = (Acquired R A, s1)
        \<and> t0 + ttl * 1000 < now
      \<longrightarrow> R \<notin> set (listed (fst (run locks_all_locked [] now s1)))
          \<and> ((\<forall>l \<in> set s. expired l now) \<longrightarrow> fst (run locks_all_locked [] now s1) = All_locks []))"
proof (rule conjI)
  show "fst (run locks_all_locked [] now s) = All_locks (map all_row (filter (\<lambda>l. \<not> expired l now) s))"
    by (rule run_all_locked)
next
  show "ttl \<noteq> 0 \<and> run (locks_request (Some R) (Some A) (Some ttl)) [] t0 s = (Acquired R A, s1)
        \<and> t0 + ttl * 1000 < now
      \<longrightarrow> R \<notin> set (listed (fst (run locks_all_locked [] now s1)))
          \<and> ((\<forall>l \<in> set s. expired l now) \<longrightarrow> fst (run locks_all_locked [] now s1) = All_locks [])"
  proof (rule impI)
    assume a: "ttl \<noteq> 0 \<and> run (locks_request (Some R) (Some A) (Some ttl)) [] t0 s = (Acquired R A, s1)
        \<and> t0 + ttl * 1000 < now"
    from a acquired_store [of R A "Some ttl" "[]" t0 s s1]
    obtain s' e where e: "cast_expires_at (new_expires_at t0 (Some ttl)) = Inr e"
      and s1: "s1 = s' @ [\<lparr>resource_name = R, process_id_str = A, locked_at = t0, expires_at = e\<rparr>]"
      and rest: "R \<notin> set (map resource_name s')" "set s' \<subseteq> set s"
      by blast
    define d where "d = \<lparr>resource_name = R, process_id_str = A, locked_at = t0, expires_at = e\<rparr>"
    from s1 rest have s': "s1 = s' @ [d]" "R \<notin> set (map resource_name s')" "set s' \<subseteq> set s"
      by (simp_all add: d_def)
    from e a have "e = Some (t0 + ttl * 1000)"
      by (simp add: cast_new_expires_at split: if_splits)
    with a have ex: "expired d now" by (simp add: d_def expired_def)
    have 1: "R \<notin> set (listed (fst (run locks_all_locked [] now s1)))"
      unfolding run_all_locked listed_all using s'(1,2) ex by auto
    have 2: "(\<forall>l \<in> set s. expired l now) \<longrightarrow> fst (run locks_all_locked [] now s1) = All_locks []"
    proof
      assume "\<forall>l \<in> set s. expired l now"
      with s'(3) have "\<forall>l \<in> set s'. expired l now" by blast
      then have "filter (\<lambda>l. \<not> expired l now) s' = []" by (simp add: filter_empty_conv)
      with ex show "fst (run locks_all_locked [] now s1) = All_locks []"
        by (simp add: run_all_locked s'(1))
    qed
    from 1 2 show "R \<notin> set (listed (fst (run locks_all_locked [] now s1)))
          \<and> ((\<forall>l \<in> set s. expired l now) \<longrightarrow> fst (run locks_all_locked [] now s1) = All_locks [])"
      by (rule conjI)
  qed
qed

text \<open>An acquisition for one second at time 0 in an empty store; the listing at 1001.\<close>

theorem all_locked_lists_unexpired_witness:
  "run (locks_request (Some ''r'') (Some ''a'') (Some 1)) [] 0 [] =
     (Acquired ''r'' ''a'',
      [\<lparr>resource_name = ''r'', process_id_str = ''a'', locked_at = 0, expires_at = Some 1000\<rparr>])
   \<and> fst (run locks_all_locked [] 1001
        [\<lparr>resource_name = ''r'', process_id_str = ''a'', locked_at = 0, expires_at = Some 1000\<rparr>])
     = All_locks []"
proof -
  have r: "run (locks_request (Some ''r'') (Some ''a'') (Some 1)) [] 0 [] =
     (Acquired ''r'' ''a'',
      [\<lparr>resource_name = ''r'', process_id_str = ''a'', locked_at = 0, expires_at = Some 1000\<rparr>])"
    by (simp add: run_request run_create db_findOne_def cast_new_expires_at faulty_simps)
  with all_locked_lists_unexpired [of 1001 "[]" 1 "''r''" "''a''" 0
      "[\<lparr>resource_name = ''r'', process_id_str = ''a'', locked_at = 0, expires_at = Some 1000\<rparr>]"]
  show ?thesis by simp
qed

section \<open>Refusals\<close>

text \<open>
  C4. When the record stored for \<open>R\<close> is a live lease of \<open>A\<close>, a release of \<open>R\<close> by another
  holder \<open>B\<close> is answered \<open>not_locked_by_process\<close> (403) and leaves the store as it was, and
  the status of \<open>R\<close> asked next still reports it locked by \<open>A\<close>; and a release of \<open>R\<close> when no
  record is stored for \<open>R\<close> is answered \<open>resource_not_locked\<close> (404). The names are the
  non-empty strings the validation lets through.
\<close>

theorem release_by_other_forbidden:
  "(R \<noteq> [] \<and> B \<noteq> [] \<and> db_findOne R s = Some d \<and> process_id_str d = A \<and> A \<noteq> B \<and> \<not> expired d now
      \<longrightarrow> run (locks_release (Some R) (Some B)) [] now s = (Not_locked_by_process R, s)
          \<and> fst (run (locks_status R) [] now (snd (run (locks_release (Some R) (Some B)) [] now s)))
              = Is_locked R A (locked_at d))
   \<and> (R \<noteq> [] \<and> A \<noteq> [] \<and> db_findOne R s = None
      \<longrightarrow> run (locks_release (Some R) (Some A)) [] now s = (Resource_not_locked R, s))"
  by (simp add: run_release run_status)

text \<open>The lease \<^const>\<open>lease_r\<close> of \<open>x\<close>, released by \<open>b\<close>; and a release in an empty store.\<close>

theorem release_by_other_forbidden_witness:
  "run (locks_release (Some ''r'') (Some ''b'')) [] 500 [lease_r] = (Not_locked_by_process ''r'', [lease_r])
   \<and> fst (run (locks_status ''r'') [] 500 [lease_r]) = Is_locked ''r'' ''x'' 0
   \<and> run (locks_release (Some ''r'') (Some ''x'')) [] 500 [] = (Resource_not_locked ''r'', [])"
proof -
  have h: "''r'' \<noteq> [] \<and> ''b'' \<noteq> [] \<and> db_findOne ''r'' [lease_r] = Some lease_r
      \<and> process_id_str lease_r = ''x'' \<and> ''x'' \<noteq> ''b'' \<and> \<not> expired lease_r 500"
    by (simp add: lease_r_def db_findOne_def expired_def)
  have g: "''r'' \<noteq> [] \<and> ''x'' \<noteq> [] \<and> db_findOne ''r'' [] = None"
    by (simp add: db_findOne_def)
  from release_by_other_forbidden [of "''r''" "''b''" "[lease_r]" lease_r "''x''" 500] h
  have a: "run (locks_release (Some ''r'') (Some ''b'')) [] 500 [lease_r]
      = (Not_locked_by_process ''r'', [lease_r])"
    and b: "fst (run (locks_status ''r'') [] 500
              (snd (run (locks_release (Some ''r'') (Some ''b'')) [] 500 [lease_r])))
            = Is_locked ''r'' ''x'' (locked_at lease_r)"
    by blast+
  from release_by_other_forbidden [of "''r''" "''b''" "[]" lease_r "''x''" 500] g
  have c: "run (locks_release (Some ''r'') (Some ''x'')) [] 500 [] = (Resource_not_locked ''r'', [])"
    by blast
  from b have "fst (run (locks_status ''r'') [] 500 [lease_r]) = Is_locked ''r'' ''x'' 0"
    unfolding a by (simp add: lease_r_def)
  with a c show ?thesis by blast
qed

text \<open>
  C5. A request or a release whose \<open>resource_name\<close> or \<open>process_id_str\<close> is missing or
  empty is answered 400: the handler is the response itself, with no store call before it,
  so whatever the store holds and whichever calls would fail, the store is left as it was.
\<close>

theorem missing_names_rejected:
  "falsy n \<or> falsy p \<Longrightarrow>
     locks_request n p ttl = Respond Bad_request \<and> locks_release n p = Respond Bad_request
     \<and> run (locks_request n p ttl) faults now s = (Bad_request, s)
     \<and> run (locks_release n p) faults now s = (Bad_request, s)"
  by (auto simp: locks_request_def locks_release_def falsy_def split: option.splits)

text \<open>An empty \<open>resource_name\<close>, and a missing \<open>process_id_str\<close>.\<close>

theorem missing_names_rejected_witness:
  "locks_request (Some []) (Some ''a'') None = Respond Bad_request
   \<and> locks_release (Some ''r'') None = Respond Bad_request
   \<and> run (locks_request (Some []) (Some ''a'') None) [] 0 [lease_r] = (Bad_request, [lease_r])"
  using missing_names_rejected [of "Some []" "Some ''a''" None "[]" 0 "[lease_r]"]
    missing_names_rejected [of "Some ''r''" None None "[]" 0 "[lease_r]"]
  by (simp add: falsy_def)

text \<open>
  C6. When the record stored for \<open>R\<close> is a live lease of \<open>H\<close>, a request for \<open>R\<close> by any
  holder \<open>H'\<close>, with any \<open>ttl\<close>, is answered \<open>denied\<close> (409) with \<open>locked_by = H\<close>, and the
  store is left exactly as it was.
\<close>

theorem live_lock_denies_request:
  "R \<noteq> [] \<Longrightarrow> H' \<noteq> [] \<Longrightarrow> db_findOne R s = Some d \<Longrightarrow> \<not> expired d now \<Longrightarrow>
     run (locks_request (Some R) (Some H') ttl) [] now s = (Denied R (process_id_str d), s)"
  by (simp add: run_request)

text \<open>The lease \<^const>\<open>lease_r\<close> at the instant of its expiry, requested by \<open>b\<close>.\<close>

theorem live_lock_denies_request_witness:
  "run (locks_request (Some ''r'') (Some ''b'') (Some 5)) [] 1000 [lease_r] = (Denied ''r'' ''x'', [lease_r])"
  using live_lock_denies_request [of "''r''" "''b''" "[lease_r]" lease_r 1000 "Some 5"]
  by (simp add: lease_r_def db_findOne_def expired_def)

section \<open>A reclamation whose delete fails\<close>

text \<open>
  C9, as the specification states it: when the delete that reclaims an expired lease
  fails with a store error, the read still answers (unlocked, or a listing without the
  lease). In the handlers the delete is awaited inside the \<open>try\<close> block, so its failure is
  answered 500: here for the expired \<^const>\<open>lease_r\<close>, with the read succeeding and the
  delete failing.
\<close>

theorem failed_reclaim_counterexample:
  "expired lease_r 2000
   \<and> run (locks_status ''r'') [False, True] 2000 [lease_r] = (Internal_server_error, [lease_r])
   \<and> run locks_all_locked [False, True] 2000 [lease_r] = (Internal_server_error, [lease_r])
   \<and> run (locks_process ''x'') [False, True] 2000 [lease_r] = (Internal_server_error, [lease_r])"
  by (simp add: lease_r_def expired_def locks_status_def locks_all_locked_def locks_process_def
      call_defs faulty_simps db_findOne_def db_find_def)

lemma run_valid_locks_fault:
  "k < length (filter (\<lambda>l. expired l t) locks) \<Longrightarrow>
   fst (run (valid_locks row reply t locks acc) (replicate k False @ True # fs) now s)
     = Internal_server_error"
proof (induction locks arbitrary: k acc s)
  case Nil
  then show ?case by simp
next
  case (Cons l ls)
  show ?case
  proof (cases "expired l t")
    case False
    with Cons show ?thesis by simp
  next
    case True
    show ?thesis
    proof (cases k)
      case 0
      with True show ?thesis by (simp add: call_defs faulty_simps)
    next
      case (Suc k')
      with Cons.prems True have "k' < length (filter (\<lambda>l. expired l t) ls)" by simp
      from Cons.IH [OF this] True Suc show ?thesis by (simp add: call_defs faulty_simps)
    qed
  qed
qed

text \<open>
  C9, amended: when the delete that reclaims an expired lease fails with a store error,
  the read operation fails with 500 (internal server error). For the status, the read of
  the record succeeds and the delete fails: the answer is 500 and the store is as it was.
  For the two listings, the read succeeds, the first \<open>k\<close> reclaiming deletes succeed and
  the next one fails (there being more than \<open>k\<close> expired leases to reclaim): the answer
  is 500, not a listing.
\<close>

theorem failed_reclaim_is_server_error:
  "(db_findOne R s = Some l \<and> expired l now
      \<longrightarrow> run (locks_status R) (False # True # fs) now s = (Internal_server_error, s))
   \<and> (k < length (filter (\<lambda>l. expired l now) s)
      \<longrightarrow> fst (run locks_all_locked (False # replicate k False @ True # fs) now s)
            = Internal_server_error)
   \<and> (k < length (filter (\<lambda>l. expired l now) (db_find (Some p) s))
      \<longrightarrow> fst (run (locks_process p) (False # replicate k False @ True # fs) now s)
            = Internal_server_error)"
  by (simp add: locks_status_def locks_all_locked_def locks_process_def call_findOne_def
      call_deleteOne_def call_find_def db_find_def faulty_simps run_valid_locks_fault)

text \<open>The expired \<^const>\<open>lease_r\<close> at time 2000, the first delete failing.\<close>

theorem failed_reclaim_is_server_error_witness:
  "run (locks_status ''r'') [False, True] 2000 [lease_r] = (Internal_server_error, [lease_r])
   \<and> fst (run locks_all_locked [False, True] 2000 [lease_r]) = Internal_server_error
   \<and> fst (run (locks_process ''x'') [False, True] 2000 [lease_r]) = Internal_server_error"
  using failed_reclaim_is_server_error [of "''r''" "[lease_r]" lease_r 2000 "[]" 0 "''x''"]
  by (simp add: lease_r_def db_findOne_def db_find_def expired_def)

section \<open>A lease that stays while requests are served one after the other\<close>

lemma run_request_held:
  assumes "filter (\<lambda>x. resource_name x = R) s = [d]" and "\<not> expired d now"
  shows "snd (run (locks_request (Some R) p ttl) faults now s) = s"
    and "\<forall>H. fst (run (locks_request (Some R) p ttl) faults now s) \<noteq> Acquired R H"
  using findOne_only [OF assms(1)] assms(2)
  by (simp_all add: locks_request_def request_try_def request_catch_def call_findOne_def
      split: option.splits)

lemma run_status_held:
  assumes "filter (\<lambda>x. resource_name x = R) s = [d]" and "\<not> expired d now"
  shows "snd (run (locks_status R) faults now s) = s"
  using findOne_only [OF assms(1)] assms(2)
  by (simp add: locks_status_def call_findOne_def)

lemma run_release_held:
  assumes "filter (\<lambda>x. resource_name x = R) s = [d]" and "p \<noteq> Some (process_id_str d)"
  shows "snd (run (locks_release (Some R) p) faults now s) = s"
  using findOne_only [OF assms(1)] assms(2)
  by (auto simp add: locks_release_def release_try_def call_findOne_def split: option.splits)

text \<open>
  A request served alone, at a time when the only record \<open>d\<close> of \<open>R\<close> is not expired, keeps
  \<open>d\<close> as the only record of \<open>R\<close>, unless it is the release of \<open>R\<close> by the holder of \<open>d\<close>.
\<close>

lemma handler_keeps_lease:
  assumes J: "filter (\<lambda>x. resource_name x = R) s = [d]" and live: "\<not> expired d now"
    and c: "c \<noteq> Release (Some R) (Some (process_id_str d))"
  shows "filter (\<lambda>x. resource_name x = R) (snd (run (handler c) faults now s)) = [d]"
proof (cases c)
  case (Request n p ttl)
  show ?thesis
  proof (cases n)
    case None
    with Request J show ?thesis by (simp add: locks_request_def)
  next
    case (Some R')
    show ?thesis
    proof (cases "R' = R")
      case True
      with Request Some run_request_held(1) [OF J live] J show ?thesis by simp
    next
      case False
      with Request Some run_request_keeps [of "\<lambda>n. n = R" R' p ttl faults now s] J
      show ?thesis by simp
    qed
  qed
next
  case (Release n p)
  show ?thesis
  proof (cases n)
    case None
    with Release J show ?thesis by (simp add: locks_release_def)
  next
    case (Some R')
    show ?thesis
    proof (cases "R' = R")
      case True
      with Release Some c have "p \<noteq> Some (process_id_str d)" by simp
      from run_release_held [OF J this] Release Some True J show ?thesis by simp
    next
      case False
      with Release Some run_release_keeps [of "\<lambda>n. n = R" R' p faults now s] J
      show ?thesis by simp
    qed
  qed
next
  case (Status R')
  show ?thesis
  proof (cases "R' = R")
    case True
    with Status run_status_held [OF J live] J show ?thesis by simp
  next
    case False
    with Status run_status_keeps [of "\<lambda>n. n = R" R' faults now s] J show ?thesis by simp
  qed
next
  case All_locked
  with run_lists_keep(1) [OF J live] show ?thesis by simp
next
  case (Process p)
  with run_lists_keep(2) [OF J live] show ?thesis by simp
qed

lemma serve_keeps_lease:
  "filter (\<lambda>x. resource_name x = R) s = [d] \<Longrightarrow>
   \<forall>c \<in> set cs. fst c \<noteq> Release (Some R) (Some (process_id_str d)) \<and> \<not> expired d (snd (snd c)) \<Longrightarrow>
   filter (\<lambda>x. resource_name x = R) (serve cs s) = [d]"
proof (induction cs arbitrary: s)
  case Nil
  then show ?case by simp
next
  case (Cons c cs)
  obtain op faults now where c: "c = (op, faults, now)" by (cases c) auto
  from Cons.prems c have "op \<noteq> Release (Some R) (Some (process_id_str d))" "\<not> expired d now" by auto
  from handler_keeps_lease [OF Cons.prems(1) this(2) this(1)]
  have "filter (\<lambda>x. resource_name x = R) (snd (run (handler op) faults now s)) = [d]" .
  from Cons.IH [OF this] Cons.prems(2) c show ?case by simp
qed

lemma acquired_only_record:
  assumes "run (locks_request (Some R) (Some A) ttl) faults t0 s = (Acquired R A, s1)"
  shows "\<exists>e. cast_expires_at (new_expires_at t0 ttl) = Inr e
     \<and> filter (\<lambda>x. resource_name x = R) s1 =
         [\<lparr>resource_name = R, process_id_str = A, locked_at = t0, expires_at = e\<rparr>]"
proof -
  from acquired_store [OF assms] obtain s' e where
    e: "cast_expires_at (new_expires_at t0 ttl) = Inr e"
    and s': "s1 = s' @ [\<lparr>resource_name = R, process_id_str = A, locked_at = t0,
                 expires_at = e\<rparr>]" "R \<notin> set (map resource_name s')"
    by blast
  from s'(2) have "filter (\<lambda>x. resource_name x = R) s' = []" by (auto simp: filter_empty_conv)
  with s'(1) e show ?thesis by simp
qed

text \<open>
  Served one after the other, a lease acquired without \<open>ttl\<close> stays: after the request of
  \<open>R\<close> by \<open>A\<close> without \<open>ttl\<close> was answered \<open>acquired\<close> at time \<open>t0\<close>, and after any requests
  served one after the other, at any times and with any failures of their store calls,
  none of them a release of \<open>R\<close> by \<open>A\<close>, the status of \<open>R\<close> at every time \<open>now\<close> reports \<open>R\<close>
  locked by \<open>A\<close> since \<open>t0\<close>.
\<close>

lemma lease_without_ttl_kept_served_alone:
  assumes "run (locks_request (Some R) (Some A) None) faults t0 s = (Acquired R A, s1)"
    and "\<forall>c \<in> set cs. fst c \<noteq> Release (Some R) (Some A)"
  shows "fst (run (locks_status R) [] now (serve cs s1)) = Is_locked R A t0"
proof -
  define d where "d = \<lparr>resource_name = R, process_id_str = A, locked_at = t0, expires_at = None\<rparr>"
  have never: "\<not> expired d t" for t by (simp add: d_def expired_def)
  from acquired_only_record [OF assms(1)] have "filter (\<lambda>x. resource_name x = R) s1 = [d]"
    by (auto simp: d_def cast_new_expires_at)
  moreover from assms(2) never
  have "\<forall>c \<in> set cs. fst c \<noteq> Release (Some R) (Some (process_id_str d)) \<and> \<not> expired d (snd (snd c))"
    by (simp add: d_def)
  ultimately have "filter (\<lambda>x. resource_name x = R) (serve cs s1) = [d]"
    by (rule serve_keeps_lease)
  then have "db_findOne R (serve cs s1) = Some d" by (rule findOne_only)
  with never show ?thesis by (simp add: run_status d_def)
qed

text \<open>
  The lease \<^const>\<open>lease_a\<close>, taken at time 0 in an empty store; then the requests
  \<^const>\<open>later_calls\<close> over the next years; the status some thirty thousand years later.
\<close>

lemma lease_without_ttl_kept_served_alone_example:
  "run (locks_request (Some ''r'') (Some ''a'') None) [] 0 [] = (Acquired ''r'' ''a'', [lease_a])
   \<and> fst (run (locks_status ''r'') [] 1000000000000000 (serve later_calls [lease_a]))
       = Is_locked ''r'' ''a'' 0"
proof -
  have a: "run (locks_request (Some ''r'') (Some ''a'') None) [] 0 [] = (Acquired ''r'' ''a'', [lease_a])"
    by (simp add: run_request run_create db_findOne_def cast_new_expires_at faulty_simps lease_a_def)
  have b: "\<forall>c \<in> set later_calls. fst c \<noteq> Release (Some ''r'') (Some ''a'')"
    by (simp add: later_calls_def)
  from lease_without_ttl_kept_served_alone [OF a b, of 1000000000000000] a show ?thesis by simp
qed

subsection \<open>The same lease when requests are served together\<close>

text \<open>
  C8. A lease acquired without \<open>ttl\<close> never expires: at every later time the status of
  \<open>R\<close> reports it locked by \<open>A\<close> since the acquisition, until \<open>A\<close> releases it. The handlers
  keep this when requests are served one after the other (shown above), and break it
  when they are served together, by the delete that reclaims by name. In the run below
  \<open>a\<close> acquires \<open>r\<close> without \<open>ttl\<close> (\<^const>\<open>lease_a2\<close>) while an earlier status request, which
  has read the expired \<^const>\<open>lease_r\<close>, has its delete pending. A status asked of that store
  would report \<open>r\<close> locked by \<open>a\<close>; but the pending delete then removes the lease of \<open>a\<close>, and
  the later status reports \<open>r\<close> unlocked, though no release was made.
\<close>

theorem stale_reclaim_drops_lease_without_ttl:
  "map answer (fst (interleave forever_first forever_pool [lease_r]))
       = [None, Some (Acquired ''r'' ''a''), None]
   \<and> snd (interleave forever_first forever_pool [lease_r]) = [lease_a2]
   \<and> run (locks_status ''r'') [] 1000000000000000 [lease_a2] = (Is_locked ''r'' ''a'' 2000, [lease_a2])
   \<and> map answer (fst (interleave (forever_first @ forever_then) forever_pool [lease_r]))
       = [Some (Is_unlocked ''r''), Some (Acquired ''r'' ''a''), Some (Is_unlocked ''r'')]
   \<and> snd (interleave (forever_first @ forever_then) forever_pool [lease_r]) = []"
  by (simp add: interleave_def forever_first_def forever_then_def forever_pool_def handler_defs
      call_defs faulty_simps db_findOne_def expired_def lease_r_def lease_a2_def)

section \<open>Exclusion\<close>

text \<open>
  The unique index holds at every step, however the requests are served together: no two
  stored records ever have the same \<open>resource_name\<close>.
\<close>

lemma db_deleteOne_distinct:
  "distinct (map resource_name s) \<Longrightarrow> distinct (map resource_name (db_deleteOne n s))"
proof (induction s)
  case Nil
  then show ?case by simp
next
  case (Cons d ds)
  have "set (db_deleteOne n ds) \<subseteq> set ds" by (rule db_deleteOne_subset)
  with Cons show ?case by auto
qed

lemma act_unique:
  "distinct (map resource_name s) \<Longrightarrow> distinct (map resource_name (snd (act fault now t s)))"
  by (cases t) (auto simp: call_defs db_deleteOne_distinct)

lemma fire_unique:
  "distinct (map resource_name (snd c)) \<Longrightarrow> distinct (map resource_name (snd (fire e c)))"
  by (cases e; cases c) (simp add: act_unique)

lemma interleave_unique:
  "distinct (map resource_name s) \<Longrightarrow> distinct (map resource_name (snd (interleave events pool s)))"
proof -
  have "distinct (map resource_name (snd c)) \<Longrightarrow>
        distinct (map resource_name (snd (fold fire events c)))" for c
    by (induction events arbitrary: c) (simp_all add: fire_unique)
  from this [of "(pool, s)"] show "distinct (map resource_name s) \<Longrightarrow> ?thesis"
    by (simp add: interleave_def)
qed

text \<open>
  Served one after the other, the requests exclude each other: after a request of \<open>R\<close> was
  answered \<open>acquired\<close>, no request of \<open>R\<close> is answered \<open>acquired\<close>, and every well-formed one
  is denied with the holder, as long as the lease is not expired and its holder has not
  released it.
\<close>

lemma served_alone_exclusive:
  assumes "run (locks_request (Some R) (Some A) ttl) faults t0 s = (Acquired R A, s1)"
    and "cast_expires_at (new_expires_at t0 ttl) = Inr e"
    and "d = \<lparr>resource_name = R, process_id_str = A, locked_at = t0, expires_at = e\<rparr>"
    and "\<forall>c \<in> set cs. fst c \<noteq> Release (Some R) (Some A) \<and> \<not> expired d (snd (snd c))"
    and "\<not> expired d now"
  shows "fst (run (locks_request (Some R) p' ttl') faults' now (serve cs s1)) \<noteq> Acquired R H"
    and "R \<noteq> [] \<Longrightarrow> H \<noteq> [] \<Longrightarrow>
         run (locks_request (Some R) (Some H) ttl') [] now (serve cs s1) = (Denied R A, serve cs s1)"
proof -
  from acquired_only_record [OF assms(1)] assms(2,3)
  have "filter (\<lambda>x. resource_name x = R) s1 = [d]" by auto
  moreover from assms(3,4)
  have "\<forall>c \<in> set cs. fst c \<noteq> Release (Some R) (Some (process_id_str d)) \<and> \<not> expired d (snd (snd c))"
    by simp
  ultimately have J: "filter (\<lambda>x. resource_name x = R) (serve cs s1) = [d]"
    by (rule serve_keeps_lease)
  from run_request_held(2) [OF J assms(5)]
  show "fst (run (locks_request (Some R) p' ttl') faults' now (serve cs s1)) \<noteq> Acquired R H" by simp
  from findOne_only [OF J] assms(3,5)
  show "R \<noteq> [] \<Longrightarrow> H \<noteq> [] \<Longrightarrow>
         run (locks_request (Some R) (Some H) ttl') [] now (serve cs s1) = (Denied R A, serve cs s1)"
    by (simp add: run_request)
qed

text \<open>
  C1. Once a request of \<open>R\<close> has been answered \<open>acquired\<close>, every later request of \<open>R\<close> is
  denied until the lease is released by its holder or observed expired. Served together,
  the handlers break this: the delete that reclaims an expired record names only the
  resource, so it removes whichever record of \<open>r\<close> is stored when it runs. In the run below
  the status request reads the expired \<^const>\<open>lease_r\<close>; before its delete, \<open>b\<close> acquires \<open>r\<close>
  without \<open>ttl\<close> (\<^const>\<open>lease_b\<close>); the delete then removes the lease of \<open>b\<close>, which was neither
  released nor expired, and the request of \<open>c\<close>, begun after \<open>b\<close> got its answer, is
  answered \<open>acquired\<close> too.
\<close>

theorem stale_reclaim_double_acquire:
  "map answer (fst (interleave reclaim_first reclaim_pool [lease_r]))
       = [None, Some (Acquired ''r'' ''b''), None]
   \<and> snd (interleave reclaim_first reclaim_pool [lease_r]) = [lease_b]
   \<and> map answer (fst (interleave (reclaim_first @ reclaim_then) reclaim_pool [lease_r]))
       = [Some (Is_unlocked ''r''), Some (Acquired ''r'' ''b''), Some (Acquired ''r'' ''c'')]
   \<and> snd (interleave (reclaim_first @ reclaim_then) reclaim_pool [lease_r]) = [lease_c]"
  by (simp add: interleave_def reclaim_first_def reclaim_then_def reclaim_pool_def handler_defs
      call_defs db_findOne_def expired_def lease_r_def lease_b_def lease_c_def)

section \<open>The duplicate key error\<close>

text \<open>
  Served alone, a request whose insert meets a stored record of the resource reads the
  record again, finds it, and is denied with its holder.
\<close>

lemma duplicate_key_denied_served_alone:
  assumes "R \<in> set (map resource_name s)" and "cast_expires_at (new_expires_at now ttl) = Inr e"
  shows "\<exists>l. db_findOne R s = Some l
     \<and> run (request_create R p ttl) [] now s = (Denied R (process_id_str l), s)"
proof -
  from assms have "filter (\<lambda>d. resource_name d = R) s \<noteq> []" by (auto simp: filter_empty_conv)
  then obtain l where l: "db_findOne R s = Some l"
    by (cases "filter (\<lambda>d. resource_name d = R) s") (simp_all add: db_findOne_filter)
  with assms show ?thesis
    by (simp add: request_create_def request_catch_def call_defs faulty_simps)
qed

text \<open>
  C7. When the insert fails with the duplicate key error, the request reads the record
  again and is denied with its holder, in every such case. The handler misses the case in
  which the record is gone at the second read: \<open>existingLock\<close> is \<open>null\<close>, and
  \<open>existingLock.process_id_str\<close> throws inside the \<open>catch\<close> block. In the run below \<open>b\<close>
  acquires \<open>r\<close> (\<^const>\<open>lease_b5\<close>) between the read and the insert of the request of \<open>a\<close>; the
  insert of \<open>a\<close> fails with the duplicate key error; \<open>b\<close> releases \<open>r\<close>; the second read of the
  request of \<open>a\<close> finds nothing, and the request ends with the exception, not with \<open>denied\<close>.
\<close>

theorem duplicate_key_reread_unhandled:
  "map answer (fst (interleave reread_first reread_pool [])) = [None, Some (Acquired ''r'' ''b''), None]
   \<and> snd (interleave reread_first reread_pool []) = [lease_b5]
   \<and> fst (call_save False
            \<lparr>resource_name = ''r'', process_id_str = ''a'', locked_at = 5, expires_at = None\<rparr>
            [lease_b5]) = Inl DuplicateKey
   \<and> map answer (fst (interleave (reread_first @ reread_then) reread_pool []))
       = [Some Unhandled, Some (Acquired ''r'' ''b''), Some (Released ''r'')]"
  by (simp add: interleave_def reread_first_def reread_then_def reread_pool_def handler_defs
      call_defs db_findOne_def expired_def lease_b5_def)

section \<open>The two ways of running agree\<close>

text \<open>A request served alone takes the same steps as a request of a pool.\<close>

lemma run_act:
  "run t faults now s =
     (case t of
        Respond r \<Rightarrow> (r, s)
      | Clock k \<Rightarrow> run (k now) faults now s
      | _ \<Rightarrow> run (fst (act (faulty faults) now t s)) (tl faults) now
               (snd (act (faulty faults) now t s)))"
  by (cases t) simp_all

end
